theory Spec2Isabelle
  imports Main "HOL-Library.Char_ord" "HOL-Library.List_Lexorder" "HOL-Library.Multiset"
begin

section \<open>The directory store (models.py)\<close>

text \<open>
  Every mapped class of models.py is a record of its columns. Strings are byte strings
  (\<open>string\<close>, ordered by \<open>Char_ord\<close> and \<open>List_Lexorder\<close>): for text encoded as UTF-8 the
  byte-wise lexicographic order is the code-point order that Python uses to compare
  \<open>str\<close> values. Within one session the ORM hands out one object per primary key, so
  object identity (what Python's \<open>set\<close> and \<open>in\<close> use for mapped objects) is identity
  of rows; the primary keys of a table are distinct.
\<close>

record user_row =
  user_id :: nat
  username :: string
  email :: string
  user_idp_id :: string

record group_row =
  group_id :: nat
  group_name :: string
  group_idp_id :: string

record role_row =
  role_id :: nat
  role_name :: string
  role_description :: "string option"

record permission_row =
  permission_id :: nat
  permission_name :: string
  resource :: string
  action :: string

record application_row =
  application_id :: nat
  application_name :: string
  application_description :: "string option"

text \<open>The five entity tables and the five junction tables, each junction row a pair of ids.\<close>

record store =
  users :: "user_row list"
  groups :: "group_row list"
  roles :: "role_row list"
  permissions :: "permission_row list"
  applications :: "application_row list"
  user_groups :: "(nat \<times> nat) list"
  user_roles :: "(nat \<times> nat) list"
  user_permissions :: "(nat \<times> nat) list"
  group_permissions :: "(nat \<times> nat) list"
  group_applications :: "(nat \<times> nat) list"

text \<open>
  The \<open>relationship(..., secondary=...)\<close> attributes: the rows of the target table joined
  through the junction table. The database fixes no order for them; none of the results
  below depends on it.
\<close>

definition groups_of_user :: "store \<Rightarrow> user_row \<Rightarrow> group_row list" where
  "groups_of_user st u = filter (\<lambda>g. (user_id u, group_id g) \<in> set (user_groups st)) (groups st)"

definition permissions_of_user :: "store \<Rightarrow> user_row \<Rightarrow> permission_row list" where
  "permissions_of_user st u =
     filter (\<lambda>p. (user_id u, permission_id p) \<in> set (user_permissions st)) (permissions st)"

definition permissions_of_group :: "store \<Rightarrow> group_row \<Rightarrow> permission_row list" where
  "permissions_of_group st g =
     filter (\<lambda>p. (group_id g, permission_id p) \<in> set (group_permissions st)) (permissions st)"

definition applications_of_group :: "store \<Rightarrow> group_row \<Rightarrow> application_row list" where
  "applications_of_group st g =
     filter (\<lambda>a. (group_id g, application_id a) \<in> set (group_applications st)) (applications st)"

text \<open>\<open>session.query(User).filter_by(username=username).first()\<close> and its siblings.\<close>

definition find_user :: "store \<Rightarrow> string \<Rightarrow> user_row option" where
  "find_user st name = List.find (\<lambda>u. username u = name) (users st)"

definition find_application :: "store \<Rightarrow> string \<Rightarrow> application_row option" where
  "find_application st name = List.find (\<lambda>a. application_name a = name) (applications st)"

text \<open>
  A database is the set of urls under which it is reached, the set of tables that exist
  and their rows. \<open>Base.metadata.create_all(engine)\<close> creates every mapped table that does
  not exist yet, empty, and leaves the existing ones alone.
\<close>

record database =
  db_urls :: "string set"
  db_tables :: "string set"
  db_rows :: store

definition metadata_tables :: "string list" where
  "metadata_tables =
     [''user_groups'', ''user_roles'', ''user_permissions'', ''group_permissions'',
      ''group_applications'', ''users'', ''groups'', ''roles'', ''permissions'', ''applications'']"

definition create_all :: "database \<Rightarrow> database" where
  "create_all db = db\<lparr>db_tables := db_tables db \<union> set metadata_tables\<rparr>"

text \<open>
  The process environment as \<open>load_dotenv(override=True)\<close> leaves it: a map from variable
  names to values. \<open>init_db\<close> raises \<open>ValueError\<close> when no url was passed and
  \<open>DATABASE_URL\<close> is unset or empty. Then \<open>create_engine\<close> and \<open>create_all\<close> run on the
  url (\<open>connect\<close>): they raise when the url is empty, cannot be parsed or reaches no
  database (\<open>EngineError\<close> stands for the \<open>ArgumentError\<close> and the \<open>OperationalError\<close> of
  SQLAlchemy), and nothing has been written then; otherwise the missing tables are created
  and the engine is returned. Once \<open>init_db\<close> has returned, the queries of the call are
  taken to reach the database.
\<close>

type_synonym environ = "string \<rightharpoonup> string"

datatype exn =
  ValueError | EngineError | ConnectionError | KeyError | IntegrityError | UnboundLocalError

definition usable :: "string \<Rightarrow> database \<Rightarrow> bool" where
  "usable url db = (url \<noteq> [] \<and> url \<in> db_urls db)"

definition connect :: "string \<Rightarrow> database \<Rightarrow> exn + (string \<times> database)" where
  "connect url db =
     (if usable url db then Inr (url, create_all db) else Inl EngineError)"

definition falsy :: "string option \<Rightarrow> bool" where
  "falsy v = (case v of None \<Rightarrow> True | Some s \<Rightarrow> s = [])"

definition init_db :: "string option \<Rightarrow> environ \<Rightarrow> database \<Rightarrow> exn + (string \<times> database)" where
  "init_db database_url env db =
     (case database_url of
        Some url \<Rightarrow> connect url db
      | None \<Rightarrow>
          (case env ''DATABASE_URL'' of
             None \<Rightarrow> Inl ValueError
           | Some url \<Rightarrow> if url = [] then Inl ValueError else connect url db))"

section \<open>Access resolution (api.py, manage\_access.py)\<close>

text \<open>
  The two functions \<open>check_access\<close> (the endpoint of api.py and the function of
  manage\_access.py) run the same two loops over the same variables: \<open>group_loop\<close> is the
  loop over \<open>user.groups\<close>, \<open>resolve\<close> the two loops from the initialisation of
  \<open>has_access\<close> to the last \<open>add\<close>. \<open>all_permissions\<close> is a Python \<open>set\<close>; it is kept
  here as a duplicate-free list, \<open>add\<close> being \<open>List.insert\<close>.
\<close>

definition add_all :: "'a list \<Rightarrow> 'a list \<Rightarrow> 'a list" where
  "add_all ps all_permissions = fold List.insert ps all_permissions"

fun group_loop ::
  "store \<Rightarrow> application_row \<Rightarrow> group_row list \<Rightarrow> bool \<times> permission_row list
     \<Rightarrow> bool \<times> permission_row list" where
  "group_loop st app [] (has_access, all_permissions) = (has_access, all_permissions)"
| "group_loop st app (g # gs) (has_access, all_permissions) =
     (if app \<in> set (applications_of_group st g)
      then group_loop st app gs (True, add_all (permissions_of_group st g) all_permissions)
      else group_loop st app gs (has_access, all_permissions))"

definition resolve :: "store \<Rightarrow> user_row \<Rightarrow> application_row \<Rightarrow> bool \<times> permission_row list" where
  "resolve st user app =
     (case group_loop st app (groups_of_user st user) (False, []) of
        (has_access, all_permissions) \<Rightarrow>
          (has_access, add_all (permissions_of_user st user) all_permissions))"

subsection \<open>The HTTP endpoint\<close>

datatype http_exception = HTTPException nat string

record access_response =
  resp_username :: string
  resp_application :: string
  resp_access :: bool
  resp_permissions :: "string list"

definition api_format :: "permission_row \<Rightarrow> string" where
  "api_format p = resource p @ '': '' @ action p"

definition api_check_access :: "string \<Rightarrow> string \<Rightarrow> store \<Rightarrow> http_exception + access_response" where
  "api_check_access uname application st =
     (case find_user st uname of
        None \<Rightarrow> Inl (HTTPException 404 (''User '' @ [CHR 0x27] @ uname @ [CHR 0x27] @ '' not found''))
      | Some user \<Rightarrow>
          (case find_application st application of
             None \<Rightarrow>
               Inl (HTTPException 404
                 (''Application '' @ [CHR 0x27] @ application @ [CHR 0x27] @ '' not found''))
           | Some app \<Rightarrow>
               (case resolve st user app of
                  (has_access, all_permissions) \<Rightarrow>
                    Inr \<lparr>resp_username = uname, resp_application = application,
                         resp_access = has_access,
                         resp_permissions = sort (map api_format all_permissions)\<rparr>)))"

subsection \<open>The session\<close>












subsection \<open>The command line\<close>

text \<open>
  What the command line prints, one constructor per message: the line of \<open>init_db\<close>
  (\<open>Connecting to: ...\<close>), the two error messages, the line that reports access with the
  list of permission strings, the line that denies it, and the usage text. The two lines
  that models.py prints while it is imported are the same in every run and are left out.
\<close>

datatype printed =
    Connecting string
  | ErrorUserNotFound string
  | ErrorApplicationNotFound string
  | HasAccess string string "string list"
  | NoAccess string string
  | Usage

definition cli_format :: "permission_row \<Rightarrow> string" where
  "cli_format p = resource p @ '':'' @ action p"

text \<open>
  \<open>cli_query\<close> is what the body of the \<open>try\<close> block of \<open>check_access\<close> in
  manage\_access.py prints, as a function of the rows; \<open>cli_query_on\<close> is that body on the
  session, and \<open>cli_check_access\<close> the whole function: \<open>init_db\<close> first, outside the
  \<open>try\<close>.
\<close>

definition cli_query :: "string \<Rightarrow> string \<Rightarrow> store \<Rightarrow> printed list" where
  "cli_query uname app_name st =
     (case find_user st uname of
        None \<Rightarrow> [ErrorUserNotFound uname]
      | Some user \<Rightarrow>
          (case find_application st app_name of
             None \<Rightarrow> [ErrorApplicationNotFound app_name]
           | Some app \<Rightarrow>
               (case resolve st user app of
                  (has_access, all_permissions) \<Rightarrow>
                    (let permission_list = sort (map cli_format all_permissions)
                     in if has_access then [HasAccess uname app_name permission_list]
                        else [NoAccess uname app_name]))))"




section \<open>Provider sync (idp\_sync.py)\<close>

text \<open>
  The identity provider is seen through its two replies: a request either raises (no
  connection) or returns a status with a body. The body of the token reply is the
  \<open>access_token\<close> entry of its JSON object when there is one; the body of the users reply
  is the list of user objects, each with the keys it has (a key that is present holds a
  string).
\<close>

record auth0_user =
  a0_user_id :: "string option"
  a0_email :: "string option"
  a0_name :: "string option"

datatype 'a http_result = Raises | Response nat 'a

record idp =
  token_reply :: "string option http_result"
  users_reply :: "auth0_user list http_result"

text \<open>
  Of what the sync prints, the lines that report a failure or the end of the run are kept:
  \<open>Failed to get token (Status n)\<close>, \<open>Failed to get users\<close>,
  \<open>Error: Missing Auth0 credentials\<close>, \<open>Error during sync: e\<close> and
  \<open>SYNC COMPLETED SUCCESSFULLY!\<close>.
\<close>

datatype sync_event =
    TokenFailed nat
  | GetUsersFailed
  | MissingCredentials
  | SyncError exn
  | SyncCompleted

text \<open>Python's \<open>sub in s\<close> and \<open>s.lower()\<close> (on ASCII letters), and \<open>str(None)\<close>.\<close>

fun str_contains :: "string \<Rightarrow> string \<Rightarrow> bool" where
  "str_contains sub [] = (sub = [])"
| "str_contains sub (c # cs) = (take (length sub) (c # cs) = sub \<or> str_contains sub cs)"

definition lower_char :: "char \<Rightarrow> char" where
  "lower_char c =
     (if CHR ''A'' \<le> c \<and> c \<le> CHR ''Z'' then char_of (of_char c + (32::nat)) else c)"

definition lower :: "string \<Rightarrow> string" where
  "lower s = map lower_char s"

definition py_str :: "string option \<Rightarrow> string" where
  "py_str v = (case v of None \<Rightarrow> ''None'' | Some s \<Rightarrow> s)"

text \<open>The autoincrement primary key of a new row: a number above every id in the table.\<close>

definition next_id :: "nat list \<Rightarrow> nat" where
  "next_id ids = Suc (fold max ids 0)"

definition find_group :: "store \<Rightarrow> string \<Rightarrow> group_row option" where
  "find_group st name = List.find (\<lambda>g. group_name g = name) (groups st)"

definition find_role :: "store \<Rightarrow> string \<Rightarrow> role_row option" where
  "find_role st name = List.find (\<lambda>r. role_name r = name) (roles st)"

definition find_permission :: "store \<Rightarrow> string \<Rightarrow> permission_row option" where
  "find_permission st name = List.find (\<lambda>p. permission_name p = name) (permissions st)"

definition roles_of_user :: "store \<Rightarrow> user_row \<Rightarrow> role_row list" where
  "roles_of_user st u = filter (\<lambda>r. (user_id u, role_id r) \<in> set (user_roles st)) (roles st)"

definition groups_of_application :: "store \<Rightarrow> application_row \<Rightarrow> group_row list" where
  "groups_of_application st a =
     filter (\<lambda>g. (group_id g, application_id a) \<in> set (group_applications st)) (groups st)"

subsection \<open>sync\_users\<close>

definition get_access_token :: "idp \<Rightarrow> exn + (sync_event list \<times> string option)" where
  "get_access_token p =
     (case token_reply p of
        Raises \<Rightarrow> Inl ConnectionError
      | Response status body \<Rightarrow>
          (if status = 200
           then (case body of None \<Rightarrow> Inl KeyError | Some token \<Rightarrow> Inr ([], Some token))
           else Inr ([TokenFailed status], None)))"

definition get_users :: "idp \<Rightarrow> exn + (sync_event list \<times> auth0_user list)" where
  "get_users p =
     (case users_reply p of
        Raises \<Rightarrow> Inl ConnectionError
      | Response status body \<Rightarrow>
          (if status = 200 then Inr ([], body) else Inr ([GetUsersFailed], [])))"

text \<open>
  The loop of \<open>sync_users\<close>. A new user is flushed to the database before the loop goes
  on or commits; the flush raises \<open>IntegrityError\<close> when \<open>idp_id\<close> is \<open>None\<close> or when the
  username or the email is already taken (the columns are \<open>nullable=False\<close> and
  \<open>unique=True\<close>).
\<close>

fun sync_users_loop :: "auth0_user list \<Rightarrow> store \<Rightarrow> exn + store" where
  "sync_users_loop [] st = Inr st"
| "sync_users_loop (auth0_user # rest) st =
     (let uid = a0_user_id auth0_user;
          mail = (case a0_email auth0_user of
                    Some e \<Rightarrow> e | None \<Rightarrow> py_str uid @ ''@example.com'');
          name = (case a0_name auth0_user of
                    Some n \<Rightarrow> n | None \<Rightarrow> takeWhile (\<lambda>c. c \<noteq> CHR ''@'') mail)
      in case uid of
           None \<Rightarrow> Inl IntegrityError
         | Some i \<Rightarrow>
             (case List.find (\<lambda>u. user_idp_id u = i) (users st) of
                Some db_user \<Rightarrow> sync_users_loop rest st
              | None \<Rightarrow>
                  (if name \<in> set (map username (users st)) \<or> mail \<in> set (map email (users st))
                   then Inl IntegrityError
                   else sync_users_loop rest
                          (st\<lparr>users := users st @
                             [\<lparr>user_id = next_id (map user_id (users st)), username = name,
                               email = mail, user_idp_id = i\<rparr>]\<rparr>))))"

definition sync_users :: "idp \<Rightarrow> store \<Rightarrow> exn + (nat \<times> sync_event list \<times> store)" where
  "sync_users p st =
     (case get_access_token p of
        Inl e \<Rightarrow> Inl e
      | Inr (out1, None) \<Rightarrow> Inr (0, out1, st)
      | Inr (out1, Some token) \<Rightarrow>
          (case get_users p of
             Inl e \<Rightarrow> Inl e
           | Inr (out2, auth0_users) \<Rightarrow>
               (case sync_users_loop auth0_users st of
                  Inl e \<Rightarrow> Inl e
                | Inr st' \<Rightarrow> Inr (length auth0_users, out1 @ out2, st'))))"

subsection \<open>The seeding steps\<close>

definition groups_data :: "(string \<times> string) list" where
  "groups_data =
     [(''Admins'', ''Administrator users''), (''Editors'', ''Editor users''),
      (''Viewers'', ''Viewer users'')]"

text \<open>
  A new group is flushed by the role query that follows it; its \<open>idp_id\<close> is unique, so
  the flush raises when another group already has it.
\<close>

fun create_sample_groups_loop :: "(string \<times> string) list \<Rightarrow> store \<Rightarrow> exn + store" where
  "create_sample_groups_loop [] st = Inr st"
| "create_sample_groups_loop ((name, description) # rest) st =
     (let new_idp_id = ''group_'' @ lower name;
          st1 = (case find_group st name of
                   Some db_group \<Rightarrow> st
                 | None \<Rightarrow>
                     st\<lparr>groups := groups st @
                          [\<lparr>group_id = next_id (map group_id (groups st)), group_name = name,
                            group_idp_id = new_idp_id\<rparr>]\<rparr>)
      in if find_group st name = None \<and> new_idp_id \<in> set (map group_idp_id (groups st))
         then Inl IntegrityError
         else create_sample_groups_loop rest
                (case find_role st1 name of
                   Some db_role \<Rightarrow> st1
                 | None \<Rightarrow>
                     st1\<lparr>roles := roles st1 @
                           [\<lparr>role_id = next_id (map role_id (roles st1)), role_name = name,
                             role_description = Some description\<rparr>]\<rparr>))"

definition create_sample_groups :: "store \<Rightarrow> exn + store" where
  "create_sample_groups st = create_sample_groups_loop groups_data st"

definition target_of_username :: "string \<Rightarrow> string" where
  "target_of_username name =
     (let username_lower = lower name
      in if str_contains ''alice'' username_lower \<or> str_contains ''admin'' username_lower
         then ''Admins''
         else if str_contains ''bob'' username_lower \<or> str_contains ''editor'' username_lower
         then ''Editors''
         else ''Viewers'')"

fun assign_users_to_groups_loop :: "user_row list \<Rightarrow> store \<Rightarrow> store" where
  "assign_users_to_groups_loop [] st = st"
| "assign_users_to_groups_loop (user # rest) st =
     (let target = target_of_username (username user);
          st1 = (case find_group st target of
                   None \<Rightarrow> st
                 | Some g \<Rightarrow>
                     (if g \<notin> set (groups_of_user st user)
                      then st\<lparr>user_groups := user_groups st @ [(user_id user, group_id g)]\<rparr>
                      else st));
          st2 = (case find_role st1 target of
                   None \<Rightarrow> st1
                 | Some r \<Rightarrow>
                     (if r \<notin> set (roles_of_user st1 user)
                      then st1\<lparr>user_roles := user_roles st1 @ [(user_id user, role_id r)]\<rparr>
                      else st1))
      in assign_users_to_groups_loop rest st2)"

definition assign_users_to_groups :: "store \<Rightarrow> store" where
  "assign_users_to_groups st = assign_users_to_groups_loop (users st) st"

definition apps_data :: "(string \<times> string) list" where
  "apps_data = [(''Google'', ''Google Workspace''), (''Slack'', ''Slack Workspace'')]"

fun create_sample_applications_loop :: "(string \<times> string) list \<Rightarrow> store \<Rightarrow> store" where
  "create_sample_applications_loop [] st = st"
| "create_sample_applications_loop ((name, description) # rest) st =
     create_sample_applications_loop rest
       (case find_application st name of
          Some db_app \<Rightarrow> st
        | None \<Rightarrow>
            st\<lparr>applications := applications st @
                 [\<lparr>application_id = next_id (map application_id (applications st)),
                   application_name = name, application_description = Some description\<rparr>]\<rparr>)"

definition create_sample_applications :: "store \<Rightarrow> store" where
  "create_sample_applications st = create_sample_applications_loop apps_data st"

text \<open>\<open>app.groups.append(group)\<close> behind its guard \<open>group and group not in app.groups\<close>.\<close>

definition append_group :: "application_row \<Rightarrow> group_row option \<Rightarrow> store \<Rightarrow> store" where
  "append_group a grp st =
     (case grp of
        None \<Rightarrow> st
      | Some g \<Rightarrow>
          (if g \<notin> set (groups_of_application st a)
           then st\<lparr>group_applications :=
                      group_applications st @ [(group_id g, application_id a)]\<rparr>
           else st))"

text \<open>
  \<open>admins\<close> is bound only inside the Google branch: without a Google application the
  test \<open>slack_app and admins\<close> reads an unbound local as soon as Slack exists.
\<close>

definition assign_groups_to_apps :: "store \<Rightarrow> exn + store" where
  "assign_groups_to_apps st =
     (case find_application st ''Google'' of
        Some google_app \<Rightarrow>
          (let admins = find_group st ''Admins'';
               editors = find_group st ''Editors'';
               st2 = append_group google_app editors (append_group google_app admins st)
           in case find_application st2 ''Slack'' of
                None \<Rightarrow> Inr st2
              | Some slack_app \<Rightarrow> Inr (append_group slack_app admins st2))
      | None \<Rightarrow>
          (case find_application st ''Slack'' of
             None \<Rightarrow> Inr st
           | Some slack_app \<Rightarrow> Inl UnboundLocalError))"

definition sample_permissions :: "(string \<times> string \<times> string) list" where
  "sample_permissions =
     [(''Docs:Read'', ''Docs'', ''Read''), (''Docs:Write'', ''Docs'', ''Write''),
      (''Sheets:Read'', ''Sheets'', ''Read''), (''Sheets:Write'', ''Sheets'', ''Write''),
      (''Slides:Read'', ''Slides'', ''Read''), (''Slides:Write'', ''Slides'', ''Write'')]"

fun create_sample_permissions_loop :: "(string \<times> string \<times> string) list \<Rightarrow> store \<Rightarrow> store" where
  "create_sample_permissions_loop [] st = st"
| "create_sample_permissions_loop ((perm_name, res, act) # rest) st =
     create_sample_permissions_loop rest
       (case find_permission st perm_name of
          Some existing \<Rightarrow> st
        | None \<Rightarrow>
            st\<lparr>permissions := permissions st @
                 [\<lparr>permission_id = next_id (map permission_id (permissions st)),
                   permission_name = perm_name, resource = res, action = act\<rparr>]\<rparr>)"

definition create_sample_permissions :: "store \<Rightarrow> store" where
  "create_sample_permissions st = create_sample_permissions_loop sample_permissions st"

text \<open>
  \<open>group.permissions = ps\<close> replaces the collection: at the commit the junction rows of
  the group are exactly those of \<open>ps\<close>.
\<close>

definition set_group_permissions :: "group_row \<Rightarrow> permission_row list \<Rightarrow> store \<Rightarrow> store" where
  "set_group_permissions g ps st =
     st\<lparr>group_permissions :=
          filter (\<lambda>(gid, pid). gid \<noteq> group_id g) (group_permissions st) @
          map (\<lambda>p. (group_id g, permission_id p)) ps\<rparr>"

definition assign_permissions_to_group :: "permission_row list \<Rightarrow> group_row \<Rightarrow> store \<Rightarrow> store" where
  "assign_permissions_to_group perms g st =
     (if str_contains ''admin'' (lower (group_name g))
      then set_group_permissions g perms st
      else if str_contains ''editor'' (lower (group_name g))
      then set_group_permissions g
             (filter (\<lambda>p. str_contains ''Write'' (permission_name p)) perms) st
      else set_group_permissions g
             (filter (\<lambda>p. str_contains ''Read'' (permission_name p)) perms) st)"

text \<open>The list that the branch taken for a group assigns.\<close>

definition derived_permissions :: "permission_row list \<Rightarrow> group_row \<Rightarrow> permission_row list" where
  "derived_permissions perms g =
     (if str_contains ''admin'' (lower (group_name g)) then perms
      else if str_contains ''editor'' (lower (group_name g))
      then filter (\<lambda>p. str_contains ''Write'' (permission_name p)) perms
      else filter (\<lambda>p. str_contains ''Read'' (permission_name p)) perms)"

definition assign_permissions_to_groups :: "store \<Rightarrow> store" where
  "assign_permissions_to_groups st =
     fold (assign_permissions_to_group (permissions st)) (groups st) st"

subsection \<open>run\_sync\<close>

text \<open>
  The steps of the \<open>try\<close> block in order. Each step commits at its end, so the store after
  a step that raised is the store that the step before it committed; the handler prints
  the error and the run ends.
\<close>

type_synonym step = "store \<Rightarrow> exn + (sync_event list \<times> store)"

definition raising :: "(store \<Rightarrow> exn + store) \<Rightarrow> step" where
  "raising f st = (case f st of Inl e \<Rightarrow> Inl e | Inr st' \<Rightarrow> Inr ([], st'))"

definition plain :: "(store \<Rightarrow> store) \<Rightarrow> step" where
  "plain f st = Inr ([], f st)"

definition sync_steps :: "idp \<Rightarrow> step list" where
  "sync_steps p =
     [\<lambda>st. (case sync_users p st of Inl e \<Rightarrow> Inl e | Inr (n, out, st') \<Rightarrow> Inr (out, st')),
      raising create_sample_groups,
      plain assign_users_to_groups,
      plain create_sample_applications,
      raising assign_groups_to_apps,
      plain create_sample_permissions,
      plain assign_permissions_to_groups]"

fun try_steps ::
  "step list \<Rightarrow> sync_event list \<times> store \<Rightarrow> exn option \<times> sync_event list \<times> store" where
  "try_steps [] (log, st) = (None, log, st)"
| "try_steps (s # ss) (log, st) =
     (case s st of
        Inl e \<Rightarrow> (Some e, log, st)
      | Inr (out, st') \<Rightarrow> try_steps ss (log @ out, st'))"

definition run_sync :: "environ \<Rightarrow> idp \<Rightarrow> database \<Rightarrow> exn + (sync_event list \<times> database)" where
  "run_sync env p db =
     (if falsy (env ''AUTH0_DOMAIN'') \<or> falsy (env ''AUTH0_CLIENT_ID'') \<or>
         falsy (env ''AUTH0_CLIENT_SECRET'')
      then Inr ([MissingCredentials], db)
      else (case init_db (env ''DATABASE_URL'') env db of
              Inl e \<Rightarrow> Inl e
            | Inr (engine, db') \<Rightarrow>
                (case try_steps (sync_steps p) ([], db_rows db') of
                   (None, log, st) \<Rightarrow> Inr (log @ [SyncCompleted], db'\<lparr>db_rows := st\<rparr>)
                 | (Some e, log, st) \<Rightarrow> Inr (log @ [SyncError e], db'\<lparr>db_rows := st\<rparr>))))"

section \<open>Sample data\<close>

subsection \<open>A sample directory\<close>

text \<open>
  Three users, the three groups, two applications and three of the permissions that the
  sync seeds. alice is in Admins and Editors and holds Docs:Read directly, bob is in
  Editors, carol is in no group and holds Sheets:Read directly. Google is open to Admins
  and Editors, Slack to Admins. Admins hold Docs:Read and Docs:Write, Editors and Viewers
  hold Docs:Write.
\<close>

definition sample_store :: store where
  "sample_store =
     \<lparr>users =
        [\<lparr>user_id = 1, username = ''alice'', email = ''alice@example.com'', user_idp_id = ''auth0|1''\<rparr>,
         \<lparr>user_id = 2, username = ''bob'', email = ''bob@example.com'', user_idp_id = ''auth0|2''\<rparr>,
         \<lparr>user_id = 3, username = ''carol'', email = ''carol@example.com'', user_idp_id = ''auth0|3''\<rparr>],
      groups =
        [\<lparr>group_id = 1, group_name = ''Admins'', group_idp_id = ''group_admins''\<rparr>,
         \<lparr>group_id = 2, group_name = ''Editors'', group_idp_id = ''group_editors''\<rparr>,
         \<lparr>group_id = 3, group_name = ''Viewers'', group_idp_id = ''group_viewers''\<rparr>],
      roles = [],
      permissions =
        [\<lparr>permission_id = 1, permission_name = ''Docs:Read'', resource = ''Docs'', action = ''Read''\<rparr>,
         \<lparr>permission_id = 2, permission_name = ''Docs:Write'', resource = ''Docs'', action = ''Write''\<rparr>,
         \<lparr>permission_id = 3, permission_name = ''Sheets:Read'', resource = ''Sheets'', action = ''Read''\<rparr>],
      applications =
        [\<lparr>application_id = 1, application_name = ''Google'',
          application_description = Some ''Google Workspace''\<rparr>,
         \<lparr>application_id = 2, application_name = ''Slack'',
          application_description = Some ''Slack Workspace''\<rparr>],
      user_groups = [(1, 1), (1, 2), (2, 2)],
      user_roles = [],
      user_permissions = [(1, 1), (3, 3)],
      group_permissions = [(1, 1), (1, 2), (2, 2), (3, 2)],
      group_applications = [(1, 1), (1, 2), (2, 1)]\<rparr>"

definition alice :: user_row where
  "alice = \<lparr>user_id = 1, username = ''alice'', email = ''alice@example.com'',
             user_idp_id = ''auth0|1''\<rparr>"

definition carol :: user_row where
  "carol = \<lparr>user_id = 3, username = ''carol'', email = ''carol@example.com'',
             user_idp_id = ''auth0|3''\<rparr>"

definition google :: application_row where
  "google = \<lparr>application_id = 1, application_name = ''Google'',
              application_description = Some ''Google Workspace''\<rparr>"

definition sheets_read :: permission_row where
  "sheets_read = \<lparr>permission_id = 3, permission_name = ''Sheets:Read'', resource = ''Sheets'',
                   action = ''Read''\<rparr>"

definition docs_read :: permission_row where
  "docs_read = \<lparr>permission_id = 1, permission_name = ''Docs:Read'', resource = ''Docs'',
                 action = ''Read''\<rparr>"

definition admins_group :: group_row where
  "admins_group = \<lparr>group_id = 1, group_name = ''Admins'', group_idp_id = ''group_admins''\<rparr>"

definition viewers_group :: group_row where
  "viewers_group = \<lparr>group_id = 3, group_name = ''Viewers'', group_idp_id = ''group_viewers''\<rparr>"

definition sample_env :: environ where
  "sample_env =
     [''DATABASE_URL'' \<mapsto> ''postgresql://localhost/identity_management'',
      ''AUTH0_DOMAIN'' \<mapsto> ''dev.example.auth0.com'',
      ''AUTH0_CLIENT_ID'' \<mapsto> ''client'',
      ''AUTH0_CLIENT_SECRET'' \<mapsto> ''secret'']"


definition empty_store :: store where
  "empty_store =
     \<lparr>users = [], groups = [], roles = [], permissions = [], applications = [],
      user_groups = [], user_roles = [], user_permissions = [], group_permissions = [],
      group_applications = []\<rparr>"

text \<open>A database in which no table has been created yet.\<close>

definition fresh_db :: database where
  "fresh_db =
     \<lparr>db_urls = {''postgresql://localhost/identity_management''},
      db_tables = {}, db_rows = empty_store\<rparr>"

text \<open>A store with two permission rows of the same resource and action, both held by dora.\<close>

definition twin_store :: store where
  "twin_store =
     empty_store\<lparr>
       users := [\<lparr>user_id = 1, username = ''dora'', email = ''dora@example.com'',
                  user_idp_id = ''auth0|4''\<rparr>],
       permissions :=
         [\<lparr>permission_id = 1, permission_name = ''Docs:Read'', resource = ''Docs'',
           action = ''Read''\<rparr>,
          \<lparr>permission_id = 2, permission_name = ''Docs:View'', resource = ''Docs'',
           action = ''Read''\<rparr>],
       applications := [\<lparr>application_id = 1, application_name = ''Google'',
                         application_description = None\<rparr>],
       user_permissions := [(1, 1), (1, 2)]\<rparr>"

text \<open>
  An identity provider that refuses the token request with status 401; one that grants the
  token and lists a single user; an environment without the Auth0 credentials; a store
  whose only group has taken the \<open>idp_id\<close> that the sync gives to Admins.
\<close>

definition idp_denied :: idp where
  "idp_denied = \<lparr>token_reply = Response 401 None, users_reply = Response 200 []\<rparr>"

definition idp_one_user :: idp where
  "idp_one_user =
     \<lparr>token_reply = Response 200 (Some ''token''),
      users_reply =
        Response 200
          [\<lparr>a0_user_id = Some ''auth0|9'', a0_email = Some ''dave@example.com'',
            a0_name = None\<rparr>]\<rparr>"


definition env_without_credentials :: environ where
  "env_without_credentials =
     [''DATABASE_URL'' \<mapsto> ''postgresql://localhost/identity_management'']"

definition clashing_store :: store where
  "clashing_store =
     empty_store\<lparr>groups :=
       [\<lparr>group_id = 1, group_name = ''Staff'', group_idp_id = ''group_admins''\<rparr>]\<rparr>"

text \<open>The store that the seeding steps build from the empty one when no user is synced.\<close>

definition seeded_store :: store where
  "seeded_store =
     \<lparr>users = [],
      groups =
        [\<lparr>group_id = 1, group_name = ''Admins'', group_idp_id = ''group_admins''\<rparr>,
         \<lparr>group_id = 2, group_name = ''Editors'', group_idp_id = ''group_editors''\<rparr>,
         \<lparr>group_id = 3, group_name = ''Viewers'', group_idp_id = ''group_viewers''\<rparr>],
      roles =
        [\<lparr>role_id = 1, role_name = ''Admins'', role_description = Some ''Administrator users''\<rparr>,
         \<lparr>role_id = 2, role_name = ''Editors'', role_description = Some ''Editor users''\<rparr>,
         \<lparr>role_id = 3, role_name = ''Viewers'', role_description = Some ''Viewer users''\<rparr>],
      permissions =
        [\<lparr>permission_id = 1, permission_name = ''Docs:Read'', resource = ''Docs'', action = ''Read''\<rparr>,
         \<lparr>permission_id = 2, permission_name = ''Docs:Write'', resource = ''Docs'', action = ''Write''\<rparr>,
         \<lparr>permission_id = 3, permission_name = ''Sheets:Read'', resource = ''Sheets'', action = ''Read''\<rparr>,
         \<lparr>permission_id = 4, permission_name = ''Sheets:Write'', resource = ''Sheets'', action = ''Write''\<rparr>,
         \<lparr>permission_id = 5, permission_name = ''Slides:Read'', resource = ''Slides'', action = ''Read''\<rparr>,
         \<lparr>permission_id = 6, permission_name = ''Slides:Write'', resource = ''Slides'', action = ''Write''\<rparr>],
      applications =
        [\<lparr>application_id = 1, application_name = ''Google'',
          application_description = Some ''Google Workspace''\<rparr>,
         \<lparr>application_id = 2, application_name = ''Slack'',
          application_description = Some ''Slack Workspace''\<rparr>],
      user_groups = [],
      user_roles = [],
      user_permissions = [],
      group_permissions =
        [(1, 1), (1, 2), (1, 3), (1, 4), (1, 5), (1, 6), (2, 2), (2, 4), (2, 6),
         (3, 1), (3, 3), (3, 5)],
      group_applications = [(1, 1), (2, 1), (1, 2)]\<rparr>"

section \<open>Properties of access resolution\<close>

subsection \<open>Facts about the two loops\<close>

lemma set_add_all: "set (add_all ps acc) = set ps \<union> set acc"
  unfolding add_all_def by (induction ps arbitrary: acc) auto


lemma group_loop_access:
  "fst (group_loop st app gs (h, acc)) =
     (h \<or> (\<exists>g \<in> set gs. app \<in> set (applications_of_group st g)))"
  by (induction gs arbitrary: h acc) auto

lemma group_loop_set:
  "set (snd (group_loop st app gs (h, acc))) =
     set acc \<union> (\<Union>g \<in> {g \<in> set gs. app \<in> set (applications_of_group st g)}.
                   set (permissions_of_group st g))"
  by (induction gs arbitrary: h acc) (auto simp: set_add_all)


lemma resolve_access:
  "fst (resolve st user app) =
     (\<exists>g \<in> set (groups_of_user st user). app \<in> set (applications_of_group st g))"
proof (cases "group_loop st app (groups_of_user st user) (False, [])")
  case (Pair h ps)
  with group_loop_access [of st app "groups_of_user st user" False "[]"]
  show ?thesis by (simp add: resolve_def)
qed

lemma resolve_set:
  "set (snd (resolve st user app)) =
     set (permissions_of_user st user) \<union>
     (\<Union>g \<in> {g \<in> set (groups_of_user st user). app \<in> set (applications_of_group st g)}.
        set (permissions_of_group st g))"
proof (cases "group_loop st app (groups_of_user st user) (False, [])")
  case (Pair h ps)
  with group_loop_set [of st app "groups_of_user st user" False "[]"]
  show ?thesis by (simp add: resolve_def set_add_all)
qed



lemma find_application_in_table:
  "find_application st name = Some app \<Longrightarrow> app \<in> set (applications st)"
  by (auto simp: find_application_def find_Some_iff)

lemma authorized_iff:
  assumes "app \<in> set (applications st)"
  shows "(\<exists>g \<in> set (groups_of_user st user). app \<in> set (applications_of_group st g)) =
         (\<exists>g \<in> set (groups st).
            (user_id user, group_id g) \<in> set (user_groups st) \<and>
            (group_id g, application_id app) \<in> set (group_applications st))"
  using assms by (auto simp: groups_of_user_def applications_of_group_def)

lemma reached_eq:
  assumes "app \<in> set (applications st)"
  shows "set (snd (resolve st user app)) =
         {p \<in> set (permissions st).
            (user_id user, permission_id p) \<in> set (user_permissions st) \<or>
            (\<exists>g \<in> set (groups st).
               (user_id user, group_id g) \<in> set (user_groups st) \<and>
               (group_id g, application_id app) \<in> set (group_applications st) \<and>
               (group_id g, permission_id p) \<in> set (group_permissions st))}"
  using assms unfolding resolve_set
  by (auto simp: groups_of_user_def applications_of_group_def permissions_of_user_def
        permissions_of_group_def)

lemma api_check_access_found:
  assumes "find_user st uname = Some user" and "find_application st application = Some app"
  shows "api_check_access uname application st =
         Inr \<lparr>resp_username = uname, resp_application = application,
              resp_access = fst (resolve st user app),
              resp_permissions = sort (map api_format (snd (resolve st user app)))\<rparr>"
  using assms by (simp add: api_check_access_def split: prod.splits)

lemma cli_query_found:
  assumes "find_user st uname = Some user" and "find_application st app_name = Some app"
  shows "cli_query uname app_name st =
         (if fst (resolve st user app)
          then [HasAccess uname app_name (sort (map cli_format (snd (resolve st user app))))]
          else [NoAccess uname app_name])"
  using assms by (simp add: cli_query_def split: prod.splits)

text \<open>
  The order in which a Python set is iterated does not show in the sorted list of strings:
  two duplicate-free enumerations of the same set give the same list.
\<close>

lemma sorted_strings_independent_of_order:
  fixes f :: "'a \<Rightarrow> string"
  assumes "distinct ps" and "distinct qs" and "set ps = set qs"
  shows "sort (map f ps) = sort (map f qs)"
proof -
  have "mset ps = mset qs"
    using assms by (simp add: set_eq_iff_mset_eq_distinct)
  then have "mset (map f qs) = mset (map f ps)"
    by simp
  then have "mset (sort (map f qs)) = mset (map f ps)"
    by simp
  then show ?thesis
    by (rule properties_for_sort) simp
qed

text \<open>Two permission rows with the same resource and action give the same string twice.\<close>

lemma same_string_twice:
  "map_sum id resp_permissions (api_check_access ''dora'' ''Google'' twin_store) =
     Inr [''Docs: Read'', ''Docs: Read'']"
  by code_simp

lemma find_user_None:
  "uname \<notin> set (map username (users st)) \<Longrightarrow> find_user st uname = None"
  by (auto simp: find_user_def find_None_iff)

lemma find_user_Some:
  "uname \<in> set (map username (users st)) \<Longrightarrow> \<exists>u. find_user st uname = Some u"
  by (cases "find_user st uname") (auto simp: find_user_def find_None_iff)

lemma find_application_None:
  "name \<notin> set (map application_name (applications st)) \<Longrightarrow> find_application st name = None"
  by (auto simp: find_application_def find_None_iff)

lemma cli_query_not_found:
  "uname \<notin> set (map username (users st)) \<or>
   app_name \<notin> set (map application_name (applications st)) \<Longrightarrow>
   cli_query uname app_name st =
     [if uname \<notin> set (map username (users st)) then ErrorUserNotFound uname
      else ErrorApplicationNotFound app_name]"
proof (cases "uname \<in> set (map username (users st))")
  case True
  then obtain u where "find_user st uname = Some u"
    using find_user_Some by blast
  moreover assume "uname \<notin> set (map username (users st)) \<or>
    app_name \<notin> set (map application_name (applications st))"
  ultimately show ?thesis
    using True by (simp add: cli_query_def find_application_None)
next
  case False
  then show ?thesis
    by (simp add: cli_query_def find_user_None)
qed

lemma api_check_access_no_user:
  assumes "uname \<notin> set (map username (users st))"
  shows "api_check_access uname application st =
       Inl (HTTPException 404 (''User '' @ [CHR 0x27] @ uname @ [CHR 0x27] @ '' not found''))"
  using assms by (simp add: api_check_access_def find_user_None)

lemma api_check_access_no_application:
  assumes known: "uname \<in> set (map username (users st))"
    and unknown: "application \<notin> set (map application_name (applications st))"
  shows "api_check_access uname application st =
       Inl (HTTPException 404
              (''Application '' @ [CHR 0x27] @ application @ [CHR 0x27] @ '' not found''))"
proof -
  obtain u where "find_user st uname = Some u"
    using known find_user_Some by blast
  then show ?thesis
    using unknown by (simp add: api_check_access_def find_application_None)
qed


lemma create_all_tables: "db_tables (create_all db) = db_tables db \<union> set metadata_tables"
  by (simp add: create_all_def)



subsection \<open>The statements of a call are reads\<close>








text \<open>
  Claim C1 as stated, for every resolution: on the command line a user who is in no group
  authorized for the application gets the denial line and nothing else, so the permission
  that carol holds directly is not reported there.
\<close>

theorem direct_permission_not_printed:
  "find_user sample_store ''carol'' = Some carol \<and>
   find_application sample_store ''Google'' = Some google \<and>
   sheets_read \<in> set (permissions sample_store) \<and>
   (user_id carol, permission_id sheets_read) \<in> set (user_permissions sample_store) \<and>
   cli_query ''carol'' ''Google'' sample_store = [NoAccess ''carol'' ''Google'']"
  by code_simp

text \<open>
  Claim C1, amended. Whenever the user and the application are found, every permission
  granted directly to the user is in the set that both surfaces collect, and its string is
  in the permissions of the HTTP response, whatever the access flag is: the flag is true
  exactly when some group of the user is authorized for the application, so a user in no
  such group gets the direct permissions together with \<open>access = False\<close>. The command line
  prints the string of the permission in its access line when some group of the user is
  authorized, and prints the denial line alone, without any permission, when none is.
\<close>

theorem direct_permissions_in_result:
  assumes "find_user st uname = Some user"
    and "find_application st application = Some app"
    and "p \<in> set (permissions st)"
    and "(user_id user, permission_id p) \<in> set (user_permissions st)"
  shows "p \<in> set (snd (resolve st user app)) \<and>
         (\<exists>r. api_check_access uname application st = Inr r \<and>
              api_format p \<in> set (resp_permissions r) \<and>
              resp_access r =
                (\<exists>g \<in> set (groups st).
                    (user_id user, group_id g) \<in> set (user_groups st) \<and>
                    (group_id g, application_id app) \<in> set (group_applications st))) \<and>
         ((\<exists>g \<in> set (groups st).
              (user_id user, group_id g) \<in> set (user_groups st) \<and>
              (group_id g, application_id app) \<in> set (group_applications st)) \<longrightarrow>
          (\<exists>ps. cli_query uname application st = [HasAccess uname application ps] \<and>
                cli_format p \<in> set ps)) \<and>
         (\<not> (\<exists>g \<in> set (groups st).
                (user_id user, group_id g) \<in> set (user_groups st) \<and>
                (group_id g, application_id app) \<in> set (group_applications st)) \<longrightarrow>
          cli_query uname application st = [NoAccess uname application])"
proof -
  have app: "app \<in> set (applications st)"
    using assms(2) by (rule find_application_in_table)
  have p: "p \<in> set (snd (resolve st user app))"
    using assms(3,4) by (simp add: reached_eq [OF app])
  have acc: "fst (resolve st user app) =
      (\<exists>g \<in> set (groups st).
          (user_id user, group_id g) \<in> set (user_groups st) \<and>
          (group_id g, application_id app) \<in> set (group_applications st))"
    by (simp only: resolve_access authorized_iff [OF app])
  have api: "\<exists>r. api_check_access uname application st = Inr r \<and>
              api_format p \<in> set (resp_permissions r) \<and>
              resp_access r = fst (resolve st user app)"
    using p by (simp add: api_check_access_found [OF assms(1,2)])
  have cli_yes: "\<exists>ps. cli_query uname application st = [HasAccess uname application ps] \<and>
                cli_format p \<in> set ps" if "fst (resolve st user app)"
    using that p by (simp add: cli_query_found [OF assms(1,2)])
  have cli_no: "cli_query uname application st = [NoAccess uname application]"
    if "\<not> fst (resolve st user app)"
    using that by (simp add: cli_query_found [OF assms(1,2)])
  show ?thesis
    using p api cli_yes cli_no unfolding acc by blast
qed

theorem direct_permissions_in_result_witness:
  "find_user sample_store ''carol'' = Some carol \<and>
   find_application sample_store ''Google'' = Some google \<and>
   sheets_read \<in> set (permissions sample_store) \<and>
   (user_id carol, permission_id sheets_read) \<in> set (user_permissions sample_store) \<and>
   sheets_read \<in> set (snd (resolve sample_store carol google)) \<and>
   (\<exists>r. api_check_access ''carol'' ''Google'' sample_store = Inr r \<and>
        ''Sheets: Read'' \<in> set (resp_permissions r) \<and> \<not> resp_access r) \<and>
   cli_query ''carol'' ''Google'' sample_store = [NoAccess ''carol'' ''Google''] \<and>
   find_user sample_store ''alice'' = Some alice \<and>
   docs_read \<in> set (permissions sample_store) \<and>
   (user_id alice, permission_id docs_read) \<in> set (user_permissions sample_store) \<and>
   (\<exists>ps. cli_query ''alice'' ''Google'' sample_store = [HasAccess ''alice'' ''Google'' ps] \<and>
         ''Docs:Read'' \<in> set ps)"
proof -
  have u: "find_user sample_store ''carol'' = Some carol" by code_simp
  have a: "find_application sample_store ''Google'' = Some google" by code_simp
  have p: "sheets_read \<in> set (permissions sample_store)" by code_simp
  have d: "(user_id carol, permission_id sheets_read) \<in> set (user_permissions sample_store)"
    by code_simp
  have n: "\<not> (\<exists>g \<in> set (groups sample_store).
              (user_id carol, group_id g) \<in> set (user_groups sample_store) \<and>
              (group_id g, application_id google) \<in> set (group_applications sample_store))"
    by code_simp
  have f: "api_format sheets_read = ''Sheets: Read''" by code_simp
  have u2: "find_user sample_store ''alice'' = Some alice" by code_simp
  have p2: "docs_read \<in> set (permissions sample_store)" by code_simp
  have d2: "(user_id alice, permission_id docs_read) \<in> set (user_permissions sample_store)"
    by code_simp
  have y: "\<exists>g \<in> set (groups sample_store).
              (user_id alice, group_id g) \<in> set (user_groups sample_store) \<and>
              (group_id g, application_id google) \<in> set (group_applications sample_store)"
    by code_simp
  have f2: "cli_format docs_read = ''Docs:Read''" by code_simp
  have carol_part:
    "sheets_read \<in> set (snd (resolve sample_store carol google)) \<and>
     (\<exists>r. api_check_access ''carol'' ''Google'' sample_store = Inr r \<and>
        ''Sheets: Read'' \<in> set (resp_permissions r) \<and> \<not> resp_access r) \<and>
     cli_query ''carol'' ''Google'' sample_store = [NoAccess ''carol'' ''Google'']"
    using direct_permissions_in_result [OF u a p d] n f by auto
  have alice_part:
    "\<exists>ps. cli_query ''alice'' ''Google'' sample_store = [HasAccess ''alice'' ''Google'' ps] \<and>
         ''Docs:Read'' \<in> set ps"
    using direct_permissions_in_result [OF u2 a p2 d2] y f2 by auto
  show ?thesis
    using u a p d u2 p2 d2 carol_part alice_part by blast
qed

text \<open>
  Claim C2. Whenever the user and the application are found, the access flag of the HTTP
  response is true if and only if some group that the user belongs to is authorized for
  the application; the command line prints its access line under the same condition and
  its denial line otherwise.
\<close>

theorem access_iff_authorized_group:
  assumes "find_user st uname = Some user"
    and "find_application st application = Some app"
  shows "(\<exists>r. api_check_access uname application st = Inr r \<and>
              resp_access r =
                (\<exists>g \<in> set (groups st).
                    (user_id user, group_id g) \<in> set (user_groups st) \<and>
                    (group_id g, application_id app) \<in> set (group_applications st))) \<and>
         ((\<exists>ps. cli_query uname application st = [HasAccess uname application ps]) =
            (\<exists>g \<in> set (groups st).
                (user_id user, group_id g) \<in> set (user_groups st) \<and>
                (group_id g, application_id app) \<in> set (group_applications st))) \<and>
         (cli_query uname application st = [NoAccess uname application]) =
            (\<not> (\<exists>g \<in> set (groups st).
                (user_id user, group_id g) \<in> set (user_groups st) \<and>
                (group_id g, application_id app) \<in> set (group_applications st)))"
proof -
  have app: "app \<in> set (applications st)"
    using assms(2) by (rule find_application_in_table)
  have acc: "fst (resolve st user app) =
      (\<exists>g \<in> set (groups st).
          (user_id user, group_id g) \<in> set (user_groups st) \<and>
          (group_id g, application_id app) \<in> set (group_applications st))"
    by (simp only: resolve_access authorized_iff [OF app])
  show ?thesis
    unfolding api_check_access_found [OF assms] cli_query_found [OF assms] acc [symmetric]
    by simp
qed

theorem access_iff_authorized_group_witness:
  "find_user sample_store ''alice'' = Some alice \<and>
   find_application sample_store ''Google'' = Some google \<and>
   admins_group \<in> set (groups sample_store) \<and>
   (user_id alice, group_id admins_group) \<in> set (user_groups sample_store) \<and>
   (group_id admins_group, application_id google) \<in> set (group_applications sample_store) \<and>
   (\<exists>r. api_check_access ''alice'' ''Google'' sample_store = Inr r \<and> resp_access r) \<and>
   (\<exists>ps. cli_query ''alice'' ''Google'' sample_store = [HasAccess ''alice'' ''Google'' ps])"
proof -
  have u: "find_user sample_store ''alice'' = Some alice" by code_simp
  have a: "find_application sample_store ''Google'' = Some google" by code_simp
  have g: "admins_group \<in> set (groups sample_store) \<and>
     (user_id alice, group_id admins_group) \<in> set (user_groups sample_store) \<and>
     (group_id admins_group, application_id google) \<in> set (group_applications sample_store)"
    by code_simp
  from access_iff_authorized_group [OF u a] g u a show ?thesis
    by blast
qed

text \<open>
  Claim C3. An unknown username makes the HTTP endpoint raise the 404 exception for the
  user and the command line print the user error; a known username with an unknown
  application gives the 404 exception and the error line for the application. In neither
  case is a response or an access line produced.
\<close>

theorem not_found_is_signalled:
  "(uname \<notin> set (map username (users st)) \<longrightarrow>
      api_check_access uname application st =
        Inl (HTTPException 404 (''User '' @ [CHR 0x27] @ uname @ [CHR 0x27] @ '' not found'')) \<and>
      cli_query uname application st = [ErrorUserNotFound uname]) \<and>
   (uname \<in> set (map username (users st)) \<and>
    application \<notin> set (map application_name (applications st)) \<longrightarrow>
      api_check_access uname application st =
        Inl (HTTPException 404
               (''Application '' @ [CHR 0x27] @ application @ [CHR 0x27] @ '' not found'')) \<and>
      cli_query uname application st = [ErrorApplicationNotFound application])"
  using cli_query_not_found [of uname st application]
    api_check_access_no_user [of uname st application]
    api_check_access_no_application [of uname st application]
  by presburger

theorem not_found_is_signalled_witness:
  "''zed'' \<notin> set (map username (users sample_store)) \<and>
   api_check_access ''zed'' ''Google'' sample_store =
     Inl (HTTPException 404 ''User 'zed' not found'') \<and>
   cli_query ''zed'' ''Google'' sample_store = [ErrorUserNotFound ''zed''] \<and>
   ''alice'' \<in> set (map username (users sample_store)) \<and>
   ''Jira'' \<notin> set (map application_name (applications sample_store)) \<and>
   api_check_access ''alice'' ''Jira'' sample_store =
     Inl (HTTPException 404 ''Application 'Jira' not found'') \<and>
   cli_query ''alice'' ''Jira'' sample_store = [ErrorApplicationNotFound ''Jira'']"
proof -
  have z: "''zed'' \<notin> set (map username (users sample_store))" by code_simp
  have a: "''alice'' \<in> set (map username (users sample_store)) \<and>
           ''Jira'' \<notin> set (map application_name (applications sample_store))" by code_simp
  from not_found_is_signalled [of "''zed''" sample_store "''Google''"]
       not_found_is_signalled [of "''alice''" sample_store "''Jira''"] z a
  show ?thesis by simp
qed



text \<open>
  Claim C5. Whenever the user and the application are found, the permission strings of the
  HTTP response, and the list that the command line prints, are sorted ascending in the
  lexicographic order of their characters.
\<close>

theorem permissions_sorted:
  assumes "find_user st uname = Some user"
    and "find_application st application = Some app"
  shows "(\<exists>r. api_check_access uname application st = Inr r \<and> sorted (resp_permissions r)) \<and>
         (\<forall>ps. cli_query uname application st = [HasAccess uname application ps] \<longrightarrow>
               sorted ps)"
  unfolding api_check_access_found [OF assms] cli_query_found [OF assms]
  by auto

theorem permissions_sorted_witness:
  "find_user sample_store ''alice'' = Some alice \<and>
   find_application sample_store ''Google'' = Some google \<and>
   (\<exists>r. api_check_access ''alice'' ''Google'' sample_store = Inr r \<and>
        resp_permissions r = [''Docs: Read'', ''Docs: Write''] \<and> sorted (resp_permissions r)) \<and>
   cli_query ''alice'' ''Google'' sample_store =
     [HasAccess ''alice'' ''Google'' [''Docs:Read'', ''Docs:Write'']] \<and>
   sorted [''Docs:Read'', ''Docs:Write'']"
proof -
  have u: "find_user sample_store ''alice'' = Some alice" by code_simp
  have a: "find_application sample_store ''Google'' = Some google" by code_simp
  have v: "api_check_access ''alice'' ''Google'' sample_store =
     Inr \<lparr>resp_username = ''alice'', resp_application = ''Google'', resp_access = True,
          resp_permissions = [''Docs: Read'', ''Docs: Write'']\<rparr>" by code_simp
  have c: "cli_query ''alice'' ''Google'' sample_store =
     [HasAccess ''alice'' ''Google'' [''Docs:Read'', ''Docs:Write'']]" by code_simp
  from permissions_sorted [OF u a] u a v c show ?thesis
    by auto
qed

text \<open>
  Claim C6. The HTTP endpoint renders a permission as the resource, a colon, one space and
  the action. The command line does not: for alice and Google on the sample directory it
  prints \<open>Docs:Read\<close> and \<open>Docs:Write\<close>, without the space, where the endpoint returns
  \<open>Docs: Read\<close> and \<open>Docs: Write\<close>.
\<close>

theorem cli_format_has_no_space:
  "cli_query ''alice'' ''Google'' sample_store =
     [HasAccess ''alice'' ''Google'' [''Docs:Read'', ''Docs:Write'']] \<and>
   map_sum id resp_permissions (api_check_access ''alice'' ''Google'' sample_store) =
     Inr [''Docs: Read'', ''Docs: Write'']"
  by code_simp

section \<open>Effects of a resolution call\<close>







section \<open>Properties of the provider sync\<close>

subsection \<open>Exceptions end the run\<close>

lemma try_steps_append:
  "try_steps (xs @ ys) (log, st) =
     (case try_steps xs (log, st) of
        (None, log', st') \<Rightarrow> try_steps ys (log', st')
      | (Some e, log', st') \<Rightarrow> (Some e, log', st'))"
  by (induction xs arbitrary: log st) (auto split: sum.splits)

text \<open>
  When the steps before step \<open>k\<close> return and step \<open>k\<close> raises, no later step runs: the
  outcome is the exception together with the log and the store that step \<open>k - 1\<close> left.
\<close>

lemma try_steps_abort:
  assumes "k < length steps"
    and "try_steps (take k steps) (log, st) = (None, log', st')"
    and "(steps ! k) st' = Inl e"
  shows "try_steps steps (log, st) = (Some e, log', st')"
proof -
  have "steps = take k steps @ (steps ! k) # drop (Suc k) steps"
    using assms(1) by (simp add: id_take_nth_drop)
  then have "try_steps steps (log, st) =
      try_steps (take k steps @ (steps ! k) # drop (Suc k) steps) (log, st)"
    by simp
  also have "\<dots> = (Some e, log', st')"
    using assms(2,3) by (simp add: try_steps_append)
  finally show ?thesis .
qed

text \<open>
  An instance: the user step commits dave, then \<open>create_sample_groups\<close> raises because the
  \<open>idp_id\<close> of Admins is taken. The error is printed, dave stays, nothing is seeded.
\<close>

lemma run_sync_keeps_committed_steps:
  "run_sync sample_env idp_one_user (fresh_db\<lparr>db_rows := clashing_store\<rparr>) =
     Inr ([SyncError IntegrityError],
          fresh_db\<lparr>db_tables := set metadata_tables,
            db_rows := clashing_store\<lparr>users :=
              [\<lparr>user_id = 1, username = ''dave'', email = ''dave@example.com'',
                user_idp_id = ''auth0|9''\<rparr>]\<rparr>\<rparr>)"
  by code_simp

subsection \<open>A refused token does not end the run\<close>

text \<open>
  Claim C8. A step that raises ends the run as the claim says (\<open>try_steps_abort\<close>). A user
  sync that fails without raising does not: when the provider refuses the token,
  \<open>sync_users\<close> prints the failure and returns 0, \<open>run_sync\<close> ignores the value, all six
  seeding steps run and commit on the empty store, and the run prints that it completed.
  With the credentials missing from the environment, by contrast, \<open>run_sync\<close> prints the
  error and runs no step at all.
\<close>

theorem seeding_runs_after_failed_token:
  "sync_users idp_denied empty_store = Inr (0, [TokenFailed 401], empty_store) \<and>
   run_sync sample_env idp_denied fresh_db =
     Inr ([TokenFailed 401, SyncCompleted],
          fresh_db\<lparr>db_tables := set metadata_tables, db_rows := seeded_store\<rparr>) \<and>
   run_sync env_without_credentials idp_denied fresh_db = Inr ([MissingCredentials], fresh_db)"
  by code_simp

subsection \<open>assign\_permissions\_to\_groups\<close>

lemma assign_permissions_to_group_eq:
  "assign_permissions_to_group perms g st =
     set_group_permissions g (derived_permissions perms g) st"
  by (simp add: assign_permissions_to_group_def derived_permissions_def)

lemma assign_group_rows:
  "(i, pid) \<in> set (group_permissions (assign_permissions_to_group perms g st)) \<longleftrightarrow>
     (if i = group_id g then pid \<in> permission_id ` set (derived_permissions perms g)
      else (i, pid) \<in> set (group_permissions st))"
  by (auto simp: assign_permissions_to_group_eq set_group_permissions_def)

lemma assign_group_other_tables:
  "permissions (assign_permissions_to_group perms g st) = permissions st"
  "groups (assign_permissions_to_group perms g st) = groups st"
  by (simp_all add: assign_permissions_to_group_eq set_group_permissions_def)

lemma fold_assign_other_tables:
  "permissions (fold (assign_permissions_to_group perms) gs st) = permissions st \<and>
   groups (fold (assign_permissions_to_group perms) gs st) = groups st"
  by (induction gs arbitrary: st) (simp_all add: assign_group_other_tables)

lemma fold_assign_untouched:
  "i \<notin> group_id ` set gs \<Longrightarrow>
   (i, pid) \<in> set (group_permissions (fold (assign_permissions_to_group perms) gs st)) \<longleftrightarrow>
   (i, pid) \<in> set (group_permissions st)"
  by (induction gs arbitrary: st) (simp_all add: assign_group_rows)

lemma fold_assign_rows:
  "distinct (map group_id gs) \<Longrightarrow> g \<in> set gs \<Longrightarrow>
   (group_id g, pid) \<in> set (group_permissions (fold (assign_permissions_to_group perms) gs st)) \<longleftrightarrow>
   pid \<in> permission_id ` set (derived_permissions perms g)"
proof (induction gs arbitrary: st)
  case Nil
  then show ?case by simp
next
  case (Cons h gs)
  show ?case
  proof (cases "g = h")
    case True
    with Cons.prems have "group_id g \<notin> group_id ` set gs" by auto
    then show ?thesis
      using True by (simp add: fold_assign_untouched assign_group_rows)
  next
    case False
    with Cons show ?thesis by simp
  qed
qed

lemma derived_subset: "set (derived_permissions perms g) \<subseteq> set perms"
  by (auto simp: derived_permissions_def)

lemma permissions_of_group_after:
  assumes "distinct (map group_id (groups st))"
    and "distinct (map permission_id (permissions st))"
    and "g \<in> set (groups st)"
  shows "set (permissions_of_group (assign_permissions_to_groups st) g) =
         set (derived_permissions (permissions st) g)"
proof -
  have inj: "inj_on permission_id (set (permissions st))"
    using assms(2) by (simp add: distinct_map)
  have "set (permissions_of_group (assign_permissions_to_groups st) g) =
        {p \<in> set (permissions st).
           permission_id p \<in> permission_id ` set (derived_permissions (permissions st) g)}"
    unfolding permissions_of_group_def assign_permissions_to_groups_def
    using fold_assign_rows [OF assms(1,3)] fold_assign_other_tables by auto
  also have "\<dots> = set (derived_permissions (permissions st) g)"
    using inj derived_subset [of "permissions st" g] by (auto dest: inj_onD)
  finally show ?thesis .
qed

text \<open>
  Claim C10 as stated tests the group name itself for \<open>admin\<close> and \<open>editor\<close>. The seeded
  group Admins contains neither, so by the claim it would end with exactly the Read
  permissions; the code tests the lower-cased name and gives it every permission.
\<close>

theorem literal_name_test_fails:
  "admins_group \<in> set (groups sample_store) \<and>
   \<not> str_contains ''admin'' (group_name admins_group) \<and>
   \<not> str_contains ''editor'' (group_name admins_group) \<and>
   set (permissions_of_group (assign_permissions_to_groups sample_store) admins_group) \<noteq>
     {p \<in> set (permissions sample_store). str_contains ''Read'' (permission_name p)} \<and>
   set (permissions_of_group (assign_permissions_to_groups sample_store) admins_group) =
     set (permissions sample_store)"
  by code_simp

text \<open>
  Claim C10, amended. On a store whose group ids and permission ids are distinct (they are
  primary keys), after \<open>assign_permissions_to_groups\<close> the permissions of every group are
  exactly the set derived from its lower-cased name, whatever the group held before: all
  permissions when the lower-cased name contains \<open>admin\<close>; otherwise the permissions whose
  name contains \<open>Write\<close> when it contains \<open>editor\<close>; otherwise the permissions whose name
  contains \<open>Read\<close>. The tables of groups and permissions are unchanged.
\<close>

theorem group_permissions_replaced:
  assumes "distinct (map group_id (groups st))"
    and "distinct (map permission_id (permissions st))"
    and "g \<in> set (groups st)"
  shows "set (permissions_of_group (assign_permissions_to_groups st) g) =
           (if str_contains ''admin'' (lower (group_name g)) then set (permissions st)
            else if str_contains ''editor'' (lower (group_name g))
            then {p \<in> set (permissions st). str_contains ''Write'' (permission_name p)}
            else {p \<in> set (permissions st). str_contains ''Read'' (permission_name p)}) \<and>
         permissions (assign_permissions_to_groups st) = permissions st \<and>
         groups (assign_permissions_to_groups st) = groups st"
  using permissions_of_group_after [OF assms]
    fold_assign_other_tables [of "permissions st" "groups st" st]
  by (simp add: derived_permissions_def assign_permissions_to_groups_def)

theorem group_permissions_replaced_witness:
  "distinct (map group_id (groups sample_store)) \<and>
   distinct (map permission_id (permissions sample_store)) \<and>
   viewers_group \<in> set (groups sample_store) \<and>
   map permission_name (permissions_of_group sample_store viewers_group) = [''Docs:Write''] \<and>
   set (permissions_of_group (assign_permissions_to_groups sample_store) viewers_group) =
     {p \<in> set (permissions sample_store). str_contains ''Read'' (permission_name p)} \<and>
   map permission_name
     (permissions_of_group (assign_permissions_to_groups sample_store) viewers_group) =
     [''Docs:Read'', ''Sheets:Read'']"
proof -
  have d1: "distinct (map group_id (groups sample_store))" by code_simp
  have d2: "distinct (map permission_id (permissions sample_store))" by code_simp
  have g: "viewers_group \<in> set (groups sample_store)" by code_simp
  have n: "\<not> str_contains ''admin'' (lower (group_name viewers_group)) \<and>
           \<not> str_contains ''editor'' (lower (group_name viewers_group))" by code_simp
  have b: "map permission_name (permissions_of_group sample_store viewers_group) = [''Docs:Write'']"
    by code_simp
  have a: "map permission_name
             (permissions_of_group (assign_permissions_to_groups sample_store) viewers_group) =
           [''Docs:Read'', ''Sheets:Read'']" by code_simp
  from group_permissions_replaced [OF d1 d2 g] n b a d1 d2 g show ?thesis
    by simp
qed

end
